theory Spec2Isabelle
  imports Main "HOL-Library.Sublist" "HOL-Library.Multiset"
begin

section \<open>Strings and numbers of the host language\<close>

text \<open>
  Strings are character lists over the code points 0 to 255. \<open>toLowerCase\<close> lowers the
  capital letters among them (\<open>A\<close> to \<open>Z\<close> and the accented capitals 192 to 222) and
  leaves every other character alone; \<open>includes_str\<close> is the contiguous-substring test
  of \<^verbatim>\<open>String.prototype.includes\<close>. A string is falsy exactly when it is empty.
\<close>

definition lower_char :: "char \<Rightarrow> char" where
  "lower_char c =
     (let n = (of_char c :: nat) in
      if (65 \<le> n \<and> n \<le> 90) \<or> (192 \<le> n \<and> n \<le> 222 \<and> n \<noteq> 215)
      then char_of (n + 32) else c)"

definition toLowerCase :: "string \<Rightarrow> string" where
  "toLowerCase s = map lower_char s"

fun includes_str :: "string \<Rightarrow> string \<Rightarrow> bool" where
  "includes_str [] sub = (sub = [])"
| "includes_str (c # cs) sub = (prefix sub (c # cs) \<or> includes_str cs sub)"

text \<open>
  A number is an integer or \<open>NaN\<close>; subtraction with an absent operand
  (\<^verbatim>\<open>undefined\<close>) gives \<open>NaN\<close>.
\<close>

datatype number = Num int | NaN

fun minus_number :: "int option \<Rightarrow> int option \<Rightarrow> number" where
  "minus_number (Some x) (Some y) = Num (x - y)"
| "minus_number _ _ = NaN"

section \<open>Reports\<close>

text \<open>
  The \<^verbatim>\<open>Report\<close> interface of the Reports page. \<open>locationName\<close> and \<open>comments\<close> are
  optional in the interface. \<open>description\<close>, \<open>userId\<close>, its \<open>email\<close> and \<open>upvotes\<close> are
  declared present, but the page guards its reads of each of them
  (\<^verbatim>\<open>report.description?.\<close>, \<^verbatim>\<open>report.userId?.email &&\<close>, \<^verbatim>\<open>a.upvotes || 0\<close>): the
  reports come from the backend's JSON unchecked, so each of these fields is modelled as
  possibly absent (\<open>None\<close>). Coordinates, photo and timestamp play no part in list
  derivation and are left out.
\<close>

record comment =
  c_userId :: string
  c_text :: string

record user_ref =
  email :: "string option"

record report =
  ident :: string
  type :: string
  description :: "string option"
  locationName :: "string option"
  userId :: "user_ref option"
  upvotes :: "int option"
  comments :: "comment list option"

section \<open>List derivation: the filter step\<close>

text \<open>
  \<^verbatim>\<open>
  const matchesSearch =
    report.description?.toLowerCase().includes(search.toLowerCase()) ||
    (report.locationName &&
      report.locationName.toLowerCase().includes(search.toLowerCase())) ||
    (report.userId?.email &&
      report.userId.email.toLowerCase().includes(search.toLowerCase()));
  const matchesLocation =
    !locationSearch ||
    (report.locationName &&
      report.locationName.toLowerCase().includes(locationSearch.toLowerCase()));
  return matchesSearch && matchesLocation;
  \<close>
\<close>

definition matchesSearch :: "report \<Rightarrow> string \<Rightarrow> bool" where
  "matchesSearch r search =
     ((case description r of
         None \<Rightarrow> False
       | Some d \<Rightarrow> includes_str (toLowerCase d) (toLowerCase search))
      \<or> (case locationName r of
            None \<Rightarrow> False
          | Some l \<Rightarrow> l \<noteq> [] \<and> includes_str (toLowerCase l) (toLowerCase search))
      \<or> (case userId r of
            None \<Rightarrow> False
          | Some u \<Rightarrow>
              (case email u of
                 None \<Rightarrow> False
               | Some e \<Rightarrow> e \<noteq> [] \<and> includes_str (toLowerCase e) (toLowerCase search))))"

definition matchesLocation :: "report \<Rightarrow> string \<Rightarrow> bool" where
  "matchesLocation r locationSearch =
     (locationSearch = []
      \<or> (case locationName r of
            None \<Rightarrow> False
          | Some l \<Rightarrow> l \<noteq> [] \<and> includes_str (toLowerCase l) (toLowerCase locationSearch)))"

definition filter_step :: "report list \<Rightarrow> string \<Rightarrow> string \<Rightarrow> report list" where
  "filter_step reports search locationSearch =
     filter (\<lambda>r. matchesSearch r search \<and> matchesLocation r locationSearch) reports"

text \<open>
  The filter as the specification words it. A field contains a needle, ignoring case,
  when the lowered needle occurs as a contiguous block of the lowered field; an absent
  field contains nothing.
\<close>

definition ci_contains :: "string \<Rightarrow> string \<Rightarrow> bool" where
  "ci_contains field needle = sublist (toLowerCase needle) (toLowerCase field)"

definition description_contains :: "report \<Rightarrow> string \<Rightarrow> bool" where
  "description_contains r needle =
     (case description r of None \<Rightarrow> False | Some d \<Rightarrow> ci_contains d needle)"

definition location_contains :: "report \<Rightarrow> string \<Rightarrow> bool" where
  "location_contains r needle =
     (case locationName r of None \<Rightarrow> False | Some l \<Rightarrow> ci_contains l needle)"

definition email_contains :: "report \<Rightarrow> string \<Rightarrow> bool" where
  "email_contains r needle =
     (case userId r of
        None \<Rightarrow> False
      | Some u \<Rightarrow> (case email u of None \<Rightarrow> False | Some e \<Rightarrow> ci_contains e needle))"

definition spec_keep :: "report \<Rightarrow> string \<Rightarrow> string \<Rightarrow> bool" where
  "spec_keep r search locationFilter =
     ((search = []
        \<or> description_contains r search
        \<or> location_contains r search
        \<or> email_contains r search)
      \<and> (locationFilter = [] \<or> location_contains r locationFilter))"

text \<open>
  A report is searchable when it has a description, a non-empty location name or a
  non-empty reporter email: one of the three reads of \<open>matchesSearch\<close> then yields a
  string.
\<close>

definition searchable :: "report \<Rightarrow> bool" where
  "searchable r =
     (description r \<noteq> None
      \<or> (case locationName r of None \<Rightarrow> False | Some l \<Rightarrow> l \<noteq> [])
      \<or> (case userId r of
            None \<Rightarrow> False
          | Some u \<Rightarrow> (case email u of None \<Rightarrow> False | Some e \<Rightarrow> e \<noteq> [])))"

section \<open>List derivation: the sort step\<close>

text \<open>
  \<^verbatim>\<open>Array.prototype.sort\<close> with a comparator is a stable sort. The comparator's
  result is read by \<open>sort_compare\<close>: a \<open>NaN\<close> counts as \<open>0\<close> (a tie). The model is the
  stable insertion sort: an element goes in front of the first later element it does not
  compare greater than.
\<close>

definition sort_compare :: "('a \<Rightarrow> 'a \<Rightarrow> number) \<Rightarrow> 'a \<Rightarrow> 'a \<Rightarrow> int" where
  "sort_compare comparefn x y = (case comparefn x y of NaN \<Rightarrow> 0 | Num v \<Rightarrow> v)"

fun sort_insert :: "('a \<Rightarrow> 'a \<Rightarrow> number) \<Rightarrow> 'a \<Rightarrow> 'a list \<Rightarrow> 'a list" where
  "sort_insert comparefn x [] = [x]"
| "sort_insert comparefn x (y # ys) =
     (if sort_compare comparefn x y \<le> 0 then x # y # ys
      else y # sort_insert comparefn x ys)"

fun array_sort :: "('a \<Rightarrow> 'a \<Rightarrow> number) \<Rightarrow> 'a list \<Rightarrow> 'a list" where
  "array_sort comparefn [] = []"
| "array_sort comparefn (x # xs) = sort_insert comparefn x (array_sort comparefn xs)"

text \<open>
  \<^verbatim>\<open>a.upvotes || 0\<close> and \<^verbatim>\<open>a.comments?.length || 0\<close>: an absent field counts as 0.
\<close>

definition upvotes_or_0 :: "report \<Rightarrow> int" where
  "upvotes_or_0 r = (case upvotes r of None \<Rightarrow> 0 | Some n \<Rightarrow> n)"

definition comments_length_or_0 :: "report \<Rightarrow> int" where
  "comments_length_or_0 r = (case comments r of None \<Rightarrow> 0 | Some cs \<Rightarrow> int (length cs))"

definition score :: "report \<Rightarrow> int" where
  "score r = upvotes_or_0 r + comments_length_or_0 r"

text \<open>
  The three comparators.
  \<^verbatim>\<open>
  (a, b) => { const scoreA = ...; const scoreB = ...; return scoreB - scoreA; }
  (a, b) => b.upvotes - a.upvotes
  (a, b) => (b.comments?.length || 0) - (a.comments?.length || 0)
  \<close>
\<close>

definition compare_engagement :: "report \<Rightarrow> report \<Rightarrow> number" where
  "compare_engagement a b = Num (score b - score a)"

definition compare_upvotes :: "report \<Rightarrow> report \<Rightarrow> number" where
  "compare_upvotes a b = minus_number (upvotes b) (upvotes a)"

definition compare_comments :: "report \<Rightarrow> report \<Rightarrow> number" where
  "compare_comments a b = Num (comments_length_or_0 b - comments_length_or_0 a)"

text \<open>
  The derived list: the filter, then the sort the selector asks for. Any selector other than
  the three named ones (the page starts with \<open>all\<close>) leaves the filtered list as it is.
\<close>

definition filteredReports ::
  "report list \<Rightarrow> string \<Rightarrow> string \<Rightarrow> string \<Rightarrow> report list" where
  "filteredReports reports search locationSearch engagementFilter =
     (let filtered = filter_step reports search locationSearch in
      if engagementFilter = ''high-engagement'' then array_sort compare_engagement filtered
      else if engagementFilter = ''most-upvoted'' then array_sort compare_upvotes filtered
      else if engagementFilter = ''most-commented'' then array_sort compare_comments filtered
      else filtered)"

fun non_increasing :: "int list \<Rightarrow> bool" where
  "non_increasing [] = True"
| "non_increasing [x] = True"
| "non_increasing (x # y # ys) = (y \<le> x \<and> non_increasing (y # ys))"

text \<open>The filter inputs of the Reports page, and the list the page shows.\<close>

record reports_page =
  search :: string
  typeFilter :: string
  engagementFilter :: string
  locationSearch :: string

definition initial_page :: reports_page where
  "initial_page =
     \<lparr>search = [], typeFilter = ''all'', engagementFilter = ''all'', locationSearch = []\<rparr>"

definition setSearch :: "string \<Rightarrow> reports_page \<Rightarrow> reports_page" where
  "setSearch v p = p\<lparr>search := v\<rparr>"

definition shown :: "report list \<Rightarrow> reports_page \<Rightarrow> report list" where
  "shown reports p = filteredReports reports (search p) (locationSearch p) (engagementFilter p)"

text \<open>
  Sample reports: one with every field, one with a location name, and one as the backend
  sends it when the description was left out and the reporting user no longer exists.
\<close>

definition sample :: "string \<Rightarrow> int option \<Rightarrow> nat \<Rightarrow> report" where
  "sample i u n =
     \<lparr>ident = i, type = ''flood'', description = Some ''Road flood near bridge'',
      locationName = None, userId = Some \<lparr>email = Some ''rider@example.com''\<rparr>,
      upvotes = u,
      comments = Some (replicate n \<lparr>c_userId = ''u1'', c_text = ''noted''\<rparr>)\<rparr>"

definition located :: "string \<Rightarrow> string \<Rightarrow> report" where
  "located i l = (sample i None 0)\<lparr>locationName := Some l\<rparr>"

definition undescribed :: "string \<Rightarrow> report" where
  "undescribed i =
     \<lparr>ident = i, type = ''accident'', description = None, locationName = None,
      userId = None, upvotes = Some 2, comments = None\<rparr>"

section \<open>Backend responses\<close>

text \<open>
  A request resolves with a payload or rejects with an error. Handlers read the error as
  \<^verbatim>\<open>error.response?.data?.message || fallback\<close>: the response, its data and the message
  may each be absent, and an empty message is falsy.
\<close>

record response_data =
  message :: "string option"

record error_response =
  data :: "response_data option"

record axios_error =
  response :: "error_response option"

datatype 'a outcome = Resolved 'a | Rejected axios_error

definition error_message :: "axios_error \<Rightarrow> string option" where
  "error_message e =
     (case response e of
        None \<Rightarrow> None
      | Some r \<Rightarrow> (case data r of None \<Rightarrow> None | Some d \<Rightarrow> message d))"

definition message_or :: "axios_error \<Rightarrow> string \<Rightarrow> string" where
  "message_or e fallback =
     (case error_message e of
        None \<Rightarrow> fallback
      | Some m \<Rightarrow> if m = [] then fallback else m)"

section \<open>The session holder\<close>

text \<open>
  \<open>admin_token\<close> is the entry of that name in local storage; \<open>admin\<close> and \<open>loading\<close> are
  the provider's two state cells. The role of a backend identity is whatever string the
  backend sent.
\<close>

record identity =
  a_id :: string
  a_email :: string
  a_name :: "string option"
  role :: string
  adminRole :: string

record auth =
  admin_token :: "string option"
  admin :: "identity option"
  loading :: bool

datatype login_error = RequestFailed axios_error | Error string

definition initial_auth :: "string option \<Rightarrow> auth" where
  "initial_auth stored = \<lparr>admin_token = stored, admin = None, loading = True\<rparr>"

text \<open>
  \<^verbatim>\<open>
  const token = localStorage.getItem("admin_token");
  if (!token) { setLoading(false); return; }
  try {
    const res = await api.get("/auth/me");
    if (res.data.role !== "admin") { localStorage.removeItem("admin_token"); setAdmin(null); }
    else { setAdmin(res.data); }
  } catch (error) { localStorage.removeItem("admin_token"); setAdmin(null); }
  finally { setLoading(false); }
  \<close>
\<close>

definition initAuth :: "identity outcome \<Rightarrow> auth \<Rightarrow> auth" where
  "initAuth me s =
     (case admin_token s of
        None \<Rightarrow> s\<lparr>loading := False\<rparr>
      | Some token \<Rightarrow>
          if token = [] then s\<lparr>loading := False\<rparr>
          else (case me of
                  Resolved d \<Rightarrow>
                    if role d \<noteq> ''admin''
                    then s\<lparr>admin_token := None, admin := None, loading := False\<rparr>
                    else s\<lparr>admin := Some d, loading := False\<rparr>
                | Rejected e \<Rightarrow> s\<lparr>admin_token := None, admin := None, loading := False\<rparr>))"

text \<open>
  \<^verbatim>\<open>
  const res = await api.post("/auth/login", { email, password });
  if (res.data.user.role !== "admin") throw new Error("Access denied. Admin account required.");
  localStorage.setItem("admin_token", res.data.token);
  setAdmin(res.data.user);
  \<close>
  The result pairs what the caller sees (the thrown error, or nothing) with the session
  afterwards.
\<close>

definition login :: "(string \<times> identity) outcome \<Rightarrow> auth \<Rightarrow> (login_error + unit) \<times> auth" where
  "login res s =
     (case res of
        Rejected e \<Rightarrow> (Inl (RequestFailed e), s)
      | Resolved (token, user) \<Rightarrow>
          if role user \<noteq> ''admin''
          then (Inl (Error ''Access denied. Admin account required.''), s)
          else (Inr (), s\<lparr>admin_token := Some token, admin := Some user\<rparr>))"

definition logout :: "auth \<Rightarrow> auth" where
  "logout s = s\<lparr>admin_token := None, admin := None\<rparr>"

text \<open>The three session states, as the route guard reads them.\<close>

datatype session_state = Validating | Unauthenticated | Authenticated

definition session_state_of :: "auth \<Rightarrow> session_state" where
  "session_state_of s =
     (if loading s then Validating
      else (case admin s of None \<Rightarrow> Unauthenticated | Some a \<Rightarrow> Authenticated))"

datatype auth_event =
    InitAuth "identity outcome"
  | Login "(string \<times> identity) outcome"
  | Logout

fun auth_step :: "auth \<Rightarrow> auth_event \<Rightarrow> auth" where
  "auth_step s (InitAuth me) = initAuth me s"
| "auth_step s (Login res) = snd (login res s)"
| "auth_step s Logout = logout s"

definition auth_run :: "auth_event list \<Rightarrow> auth \<Rightarrow> auth" where
  "auth_run events s = foldl auth_step s events"

definition holds_admin :: "auth \<Rightarrow> bool" where
  "holds_admin s = (case admin s of None \<Rightarrow> True | Some a \<Rightarrow> role a = ''admin'')"

definition is_admin_identity :: "identity outcome \<Rightarrow> bool" where
  "is_admin_identity me = (case me of Resolved d \<Rightarrow> role d = ''admin'' | Rejected e \<Rightarrow> False)"

definition has_token :: "string option \<Rightarrow> bool" where
  "has_token stored = (case stored of None \<Rightarrow> False | Some token \<Rightarrow> token \<noteq> [])"

definition sample_identity :: "string \<Rightarrow> identity" where
  "sample_identity r =
     \<lparr>a_id = ''1'', a_email = ''staff@example.com'', a_name = None, role = r,
      adminRole = ''moderator''\<rparr>"


section \<open>Mutations\<close>

text \<open>
  What a page holds between renders: the fetched lists, the query keys invalidated and
  awaiting a refetch, the comment box, the report open in the detail modal, and the
  notifications raised so far.
\<close>

record user =
  u_id :: string
  u_email :: string
  u_role :: string
  isSuspended :: bool

datatype toast = ToastSuccess string | ToastError string

record client =
  reportsData :: "report list"
  usersData :: "user list"
  invalidated :: "string list list"
  newComment :: string
  selectedReport :: "report option"
  toasts :: "toast list"

datatype request = DELETE string | POST string "(string \<times> string) list"

definition toast_success :: "string \<Rightarrow> client \<Rightarrow> client" where
  "toast_success m c = c\<lparr>toasts := toasts c @ [ToastSuccess m]\<rparr>"

definition toast_error :: "string \<Rightarrow> client \<Rightarrow> client" where
  "toast_error m c = c\<lparr>toasts := toasts c @ [ToastError m]\<rparr>"

definition invalidateQueries :: "string list \<Rightarrow> client \<Rightarrow> client" where
  "invalidateQueries queryKey c = c\<lparr>invalidated := invalidated c @ [queryKey]\<rparr>"

definition setNewComment :: "string \<Rightarrow> client \<Rightarrow> client" where
  "setNewComment v c = c\<lparr>newComment := v\<rparr>"


text \<open>
  The options object given to \<^verbatim>\<open>useMutation\<close>: the request \<open>mutationFn\<close> sends and the
  two callbacks. \<open>mutate\<close> sends the request to the backend (a function from requests to
  outcomes) and runs the callback that fits the outcome; it returns the requests issued
  and the page state afterwards.
\<close>

record mutation_options =
  mutationFn :: request
  onSuccess :: "client \<Rightarrow> client"
  onError :: "axios_error \<Rightarrow> client \<Rightarrow> client"

definition mutate ::
  "mutation_options \<Rightarrow> (request \<Rightarrow> unit outcome) \<Rightarrow> client \<Rightarrow> request list \<times> client" where
  "mutate m api c =
     (case api (mutationFn m) of
        Resolved u \<Rightarrow> ([mutationFn m], onSuccess m c)
      | Rejected e \<Rightarrow> ([mutationFn m], onError m e c))"

subsection \<open>Users page\<close>

definition suspendMutation :: "string \<Rightarrow> string \<Rightarrow> mutation_options" where
  "suspendMutation uid reason =
     \<lparr>mutationFn = POST (''/admin/users/'' @ uid @ ''/suspend'') [(''reason'', reason)],
      onSuccess = (\<lambda>c. toast_success ''User suspended successfully''
                          (invalidateQueries [''users''] c)),
      onError = (\<lambda>e. toast_error (message_or e ''Failed to suspend user''))\<rparr>"

definition unsuspendMutation :: "string \<Rightarrow> mutation_options" where
  "unsuspendMutation uid =
     \<lparr>mutationFn = POST (''/admin/users/'' @ uid @ ''/unsuspend'') [],
      onSuccess = (\<lambda>c. toast_success ''User unsuspended successfully''
                          (invalidateQueries [''users''] c)),
      onError = (\<lambda>e. toast_error (message_or e ''Failed to unsuspend user''))\<rparr>"


text \<open>
  \<^verbatim>\<open>prompt\<close> returns the typed text, or \<^verbatim>\<open>null\<close> (\<open>None\<close>) when dismissed.
\<close>

definition handleSuspend ::
  "string \<Rightarrow> string \<Rightarrow> string option \<Rightarrow> (request \<Rightarrow> unit outcome) \<Rightarrow> client
   \<Rightarrow> request list \<times> client" where
  "handleSuspend uid mail reason api c =
     (case reason of
        None \<Rightarrow> ([], c)
      | Some r \<Rightarrow> if r = [] then ([], c) else mutate (suspendMutation uid r) api c)"

definition handleUnsuspend ::
  "string \<Rightarrow> bool \<Rightarrow> (request \<Rightarrow> unit outcome) \<Rightarrow> client \<Rightarrow> request list \<times> client" where
  "handleUnsuspend uid confirmed api c =
     (if confirmed then mutate (unsuspendMutation uid) api c else ([], c))"


subsection \<open>Reports and rider-reports pages\<close>





subsection \<open>Report detail modal\<close>

definition is_space :: "char \<Rightarrow> bool" where
  "is_space ch = ((of_char ch :: nat) \<in> {9, 10, 11, 12, 13, 32, 160})"

definition trim :: "string \<Rightarrow> string" where
  "trim s = rev (dropWhile is_space (rev (dropWhile is_space s)))"

definition addCommentMutation :: "string \<Rightarrow> string \<Rightarrow> mutation_options" where
  "addCommentMutation reportId txt =
     \<lparr>mutationFn = POST (''/reports/'' @ reportId @ ''/comment'') [(''text'', txt)],
      onSuccess = (\<lambda>c. toast_success ''Comment added successfully''
                          (setNewComment [] (invalidateQueries [''admin-reports''] c))),
      onError = (\<lambda>e. toast_error (message_or e ''Failed to add comment''))\<rparr>"



definition handleAddComment ::
  "string \<Rightarrow> (request \<Rightarrow> unit outcome) \<Rightarrow> client \<Rightarrow> request list \<times> client" where
  "handleAddComment reportId api c =
     (if trim (newComment c) \<noteq> []
      then mutate (addCommentMutation reportId (trim (newComment c))) api c
      else ([], c))"



subsection \<open>All mutations and all destructive actions\<close>








section \<open>Category labels and colors\<close>

text \<open>
  \<open>reportTypes\<close> is the object literal of the pages; the detail modal has its own with the
  same keys and other colors. Reading \<^verbatim>\<open>reportTypes[key]\<close> gives the own property when
  \<open>key\<close> is one of the literal's keys; otherwise the members every object inherits answer
  (they carry neither \<open>label\<close> nor \<open>color\<close>), and any other key gives \<^verbatim>\<open>undefined\<close>.
  Reading \<^verbatim>\<open>typeConfig.color\<close> of \<^verbatim>\<open>undefined\<close> throws.
\<close>

record type_config =
  label :: string
  color :: string

definition reportTypes :: "(string \<times> type_config) list" where
  "reportTypes =
     [(''heavy-traffic'', \<lparr>label = ''Heavy Traffic'', color = ''bg-purple-100 text-purple-700''\<rparr>),
      (''accident'', \<lparr>label = ''Accident'', color = ''bg-red-100 text-red-700''\<rparr>),
      (''construction'', \<lparr>label = ''Construction'', color = ''bg-orange-100 text-orange-700''\<rparr>),
      (''flood'', \<lparr>label = ''Flooded Road'', color = ''bg-blue-100 text-blue-700''\<rparr>),
      (''checkpoint'', \<lparr>label = ''Police Checkpoint'', color = ''bg-gray-100 text-gray-700''\<rparr>)]"

definition modal_reportTypes :: "(string \<times> type_config) list" where
  "modal_reportTypes =
     [(''heavy-traffic'', \<lparr>label = ''Heavy Traffic'', color = ''bg-purple-600 text-white''\<rparr>),
      (''accident'', \<lparr>label = ''Accident'', color = ''bg-red-600 text-white''\<rparr>),
      (''construction'', \<lparr>label = ''Construction'', color = ''bg-orange-500 text-white''\<rparr>),
      (''flood'', \<lparr>label = ''Flooded Road'', color = ''bg-blue-500 text-white''\<rparr>),
      (''checkpoint'', \<lparr>label = ''Police Checkpoint'', color = ''bg-black text-white''\<rparr>)]"

definition object_prototype_names :: "string list" where
  "object_prototype_names =
     [''constructor'', ''__proto__'', ''hasOwnProperty'', ''isPrototypeOf'',
      ''propertyIsEnumerable'', ''toLocaleString'', ''toString'', ''valueOf'',
      ''__defineGetter__'', ''__defineSetter__'', ''__lookupGetter__'', ''__lookupSetter__'']"

datatype property_value = Undefined | Own type_config | Inherited

definition get_property :: "(string \<times> type_config) list \<Rightarrow> string \<Rightarrow> property_value" where
  "get_property obj key =
     (case map_of obj key of
        Some cfg \<Rightarrow> Own cfg
      | None \<Rightarrow> if key \<in> set object_prototype_names then Inherited else Undefined)"

datatype render_error = TypeError

text \<open>The badge: its class name (\<open>typeConfig.color\<close>) and its text (\<open>typeConfig.label\<close>).\<close>

fun badge :: "property_value \<Rightarrow> render_error + (string option \<times> string option)" where
  "badge Undefined = Inl TypeError"
| "badge (Own cfg) = Inr (Some (color cfg), Some (label cfg))"
| "badge Inherited = Inr (None, None)"

definition row_badge :: "report \<Rightarrow> render_error + (string option \<times> string option)" where
  "row_badge r = badge (get_property reportTypes (type r))"

definition modal_badge :: "report \<Rightarrow> render_error + (string option \<times> string option)" where
  "modal_badge r = badge (get_property modal_reportTypes (type r))"

text \<open>The table body maps the rows in order; the first throw ends the render.\<close>

fun render_rows :: "report list \<Rightarrow> render_error + (string option \<times> string option) list" where
  "render_rows [] = Inr []"
| "render_rows (r # rs) =
     (case row_badge r of
        Inl err \<Rightarrow> Inl err
      | Inr b \<Rightarrow> (case render_rows rs of Inl err \<Rightarrow> Inl err | Inr bs \<Rightarrow> Inr (b # bs)))"

definition fixed_categories :: "string list" where
  "fixed_categories = [''heavy-traffic'', ''accident'', ''construction'', ''flood'', ''checkpoint'']"

fun lookup_succeeds :: "render_error + (string option \<times> string option) \<Rightarrow> bool" where
  "lookup_succeeds (Inr (Some c, Some l)) = True"
| "lookup_succeeds other = False"

section \<open>Substring facts\<close>

lemma includes_sublist: "includes_str s sub \<longleftrightarrow> sublist sub s"
  by (induction s) (auto simp: sublist_Cons_right)

lemma includes_Nil_right: "includes_str s []"
  by (induction s) auto

lemma toLowerCase_Nil_iff: "toLowerCase s = [] \<longleftrightarrow> s = []"
  by (simp add: toLowerCase_def)

lemma includes_ci_contains:
  "includes_str (toLowerCase field) (toLowerCase needle) \<longleftrightarrow> ci_contains field needle"
  by (simp add: ci_contains_def includes_sublist)

lemma ci_contains_empty_field: "needle \<noteq> [] \<Longrightarrow> \<not> ci_contains [] needle"
  by (simp add: ci_contains_def toLowerCase_def)

lemma ci_contains_empty_needle: "ci_contains field []"
  by (simp add: ci_contains_def toLowerCase_def)

text \<open>Lowering and containment on concrete strings.\<close>

lemma toLowerCase_example: "toLowerCase ''Road FLOOD near Bridge 7'' = ''road flood near bridge 7''"
  by code_simp

lemma includes_str_examples:
  "includes_str ''road flood near bridge'' ''flood''"
  "\<not> includes_str ''road flood near bridge'' ''floods''"
  "\<not> includes_str ''road flood near bridge'' ''rdfl''"
  by code_simp+

section \<open>The filter step against its specification\<close>

lemma matchesSearch_nonempty:
  "s \<noteq> [] \<Longrightarrow>
   matchesSearch r s \<longleftrightarrow>
     description_contains r s \<or> location_contains r s \<or> email_contains r s"
  by (auto simp: matchesSearch_def description_contains_def location_contains_def
        email_contains_def includes_ci_contains ci_contains_empty_field
        split: option.splits)

lemma matchesSearch_empty: "matchesSearch r [] \<longleftrightarrow> searchable r"
  by (auto simp: matchesSearch_def searchable_def toLowerCase_def includes_Nil_right
        split: option.splits)

lemma matchesLocation_spec:
  "matchesLocation r loc \<longleftrightarrow> (loc = [] \<or> location_contains r loc)"
  by (cases "loc = []")
     (auto simp: matchesLocation_def location_contains_def includes_ci_contains
        ci_contains_empty_field split: option.splits)

text \<open>
  Where the filter and its specification agree: under a non-empty search string, and
  under an empty one for every searchable report. A report without a location name is
  never kept under a non-empty location filter.
\<close>

lemma filter_step_agrees:
  assumes "s \<noteq> [] \<or> list_all searchable reports"
  shows "filter_step reports s loc = filter (\<lambda>r. spec_keep r s loc) reports"
proof -
  have "matchesSearch r s \<and> matchesLocation r loc \<longleftrightarrow> spec_keep r s loc"
    if "r \<in> set reports" for r
  proof (cases "s = []")
    case True
    with assms that have "searchable r" by (simp add: list_all_iff)
    with True show ?thesis
      by (simp add: matchesSearch_empty matchesLocation_spec spec_keep_def)
  next
    case False
    then show ?thesis
      by (simp add: matchesSearch_nonempty matchesLocation_spec spec_keep_def)
  qed
  then show ?thesis
    unfolding filter_step_def by (intro filter_cong) simp_all
qed

lemma filter_step_no_location:
  "locationName r = None \<Longrightarrow> loc \<noteq> [] \<Longrightarrow> r \<notin> set (filter_step reports s loc)"
  by (simp add: filter_step_def matchesLocation_def)

lemma filter_step_example:
  "map ident (filter_step
      [sample ''a'' None 0, located ''b'' ''Main St'', located ''c'' ''Harbour Rd'']
      ''FLOOD'' ''main'') = [''b'']"
  "map ident (filter_step
      [sample ''a'' None 0, located ''b'' ''Main St'', located ''c'' ''Harbour Rd'']
      ''RIDER@'' []) = [''a'', ''b'', ''c'']"
  "map ident (filter_step
      [sample ''a'' None 0, located ''b'' ''Main St'', located ''c'' ''Harbour Rd'']
      ''harbour'' []) = [''c'']"
  "filter_step
      [sample ''a'' None 0, located ''b'' ''Main St'', located ''c'' ''Harbour Rd'']
      ''tunnel'' [] = []"
  by code_simp+

text \<open>
  C1. The specification keeps every report when the search string and the location
  filter are empty. The filter step drops a report that has no description, no location
  name and no reporter email: none of the three reads of \<open>matchesSearch\<close> yields a string,
  and unlike \<open>matchesLocation\<close> it has no test for an empty search string.
\<close>

theorem filter_step_drops_unsearchable:
  "spec_keep (undescribed ''z'') [] []
   \<and> filter_step [undescribed ''z''] [] [] = []
   \<and> map ident (filter_step [sample ''a'' None 0, undescribed ''z'', located ''b'' ''Main St'']
        [] []) = [''a'', ''b'']"
proof -
  have "spec_keep (undescribed ''z'') [] []"
    by (simp add: spec_keep_def)
  moreover have "filter_step [undescribed ''z''] [] [] = []"
    by (simp add: filter_step_def matchesSearch_def undescribed_def)
  moreover have "map ident (filter_step
      [sample ''a'' None 0, undescribed ''z'', located ''b'' ''Main St''] [] []) = [''a'', ''b'']"
    by code_simp
  ultimately show ?thesis by blast
qed

section \<open>The sort step: sortedness, permutation, stability\<close>

lemma set_sort_insert: "set (sort_insert c x ys) = insert x (set ys)"
  by (induction ys) auto

lemma mset_sort_insert: "mset (sort_insert c x ys) = add_mset x (mset ys)"
  by (induction ys) auto

lemma mset_array_sort: "mset (array_sort c xs) = mset xs"
  by (induction xs) (auto simp: mset_sort_insert)

lemma set_array_sort: "set (array_sort c xs) = set xs"
  by (induction xs) (auto simp: set_sort_insert)

lemma non_increasing_sorted_wrt: "non_increasing zs \<longleftrightarrow> sorted_wrt (\<lambda>a b. b \<le> a) zs"
  by (induction zs rule: non_increasing.induct) fastforce+

lemma sorted_sort_insert:
  assumes "\<And>y. y \<in> set ys \<Longrightarrow> sort_compare c x y = key y - key x"
    and "sorted_wrt (\<lambda>a b. key b \<le> key a) ys"
  shows "sorted_wrt (\<lambda>a b. key b \<le> (key a :: int)) (sort_insert c x ys)"
  using assms
proof (induction ys)
  case Nil
  then show ?case by simp
next
  case (Cons y ys)
  show ?case
  proof (cases "sort_compare c x y \<le> 0")
    case True
    with Cons.prems have "key y \<le> key x" by simp
    with Cons.prems True show ?thesis by fastforce
  next
    case False
    with Cons.prems have "key x \<le> key y" by simp
    with Cons False show ?thesis by (auto simp: set_sort_insert)
  qed
qed

lemma sorted_array_sort:
  assumes "\<And>a b. a \<in> set xs \<Longrightarrow> b \<in> set xs \<Longrightarrow> sort_compare c a b = key b - key a"
  shows "sorted_wrt (\<lambda>a b. key b \<le> (key a :: int)) (array_sort c xs)"
  using assms
proof (induction xs)
  case Nil
  then show ?case by simp
next
  case (Cons x xs)
  have "sorted_wrt (\<lambda>a b. key b \<le> key a) (array_sort c xs)"
    using Cons by simp
  moreover have "\<And>y. y \<in> set (array_sort c xs) \<Longrightarrow> sort_compare c x y = key y - key x"
    using Cons.prems by (simp add: set_array_sort)
  ultimately show ?case by (simp add: sorted_sort_insert)
qed

lemma filter_sort_insert:
  assumes "\<And>y. y \<in> set ys \<Longrightarrow> sort_compare c x y = key y - key x"
  shows "filter (\<lambda>r. key r = (k :: int)) (sort_insert c x ys)
         = filter (\<lambda>r. key r = k) (x # ys)"
  using assms by (induction ys) auto

lemma filter_array_sort:
  assumes "\<And>a b. a \<in> set xs \<Longrightarrow> b \<in> set xs \<Longrightarrow> sort_compare c a b = key b - key a"
  shows "filter (\<lambda>r. key r = (k :: int)) (array_sort c xs) = filter (\<lambda>r. key r = k) xs"
  using assms
proof (induction xs)
  case Nil
  then show ?case by simp
next
  case (Cons x xs)
  have "filter (\<lambda>r. key r = k) (sort_insert c x (array_sort c xs))
        = filter (\<lambda>r. key r = k) (x # array_sort c xs)"
    using Cons.prems by (intro filter_sort_insert) (simp add: set_array_sort)
  with Cons show ?case by simp
qed

lemma non_increasing_array_sort:
  assumes "\<And>a b. a \<in> set xs \<Longrightarrow> b \<in> set xs \<Longrightarrow> sort_compare c a b = key b - key a"
  shows "non_increasing (map key (array_sort c xs))"
  using sorted_array_sort [of xs c key, OF assms]
  by (simp add: non_increasing_sorted_wrt sorted_wrt_map)

lemma compare_engagement_key: "sort_compare compare_engagement a b = score b - score a"
  by (simp add: sort_compare_def compare_engagement_def)

lemma compare_comments_key:
  "sort_compare compare_comments a b = comments_length_or_0 b - comments_length_or_0 a"
  by (simp add: sort_compare_def compare_comments_def)

lemma compare_upvotes_key:
  "upvotes a \<noteq> None \<Longrightarrow> upvotes b \<noteq> None \<Longrightarrow>
   sort_compare compare_upvotes a b = upvotes_or_0 b - upvotes_or_0 a"
  by (auto simp: sort_compare_def compare_upvotes_def upvotes_or_0_def)

section \<open>The three sort selectors\<close>

text \<open>
  C4. Under the selector \<open>high-engagement\<close> the derived list is non-increasing in the score
  (upvotes plus number of comments, an absent field counting as 0). It is a permutation
  of the filtered list, and reports of equal score keep the order they have in the
  filtered list.
\<close>

theorem high_engagement_sorted:
  "non_increasing (map score (filteredReports reports s loc ''high-engagement''))
   \<and> filter (\<lambda>r. score r = k) (filteredReports reports s loc ''high-engagement'')
       = filter (\<lambda>r. score r = k) (filter_step reports s loc)
   \<and> mset (filteredReports reports s loc ''high-engagement'') = mset (filter_step reports s loc)
   \<and> score r = (case upvotes r of None \<Rightarrow> 0 | Some u \<Rightarrow> u)
               + (case comments r of None \<Rightarrow> 0 | Some cs \<Rightarrow> int (length cs))"
proof -
  have sel: "filteredReports reports s loc ''high-engagement''
             = array_sort compare_engagement (filter_step reports s loc)"
    by (simp add: filteredReports_def)
  have "non_increasing (map score (array_sort compare_engagement (filter_step reports s loc)))"
    by (rule non_increasing_array_sort) (rule compare_engagement_key)
  moreover have "filter (\<lambda>r. score r = k) (array_sort compare_engagement (filter_step reports s loc))
       = filter (\<lambda>r. score r = k) (filter_step reports s loc)"
    by (rule filter_array_sort) (rule compare_engagement_key)
  moreover have "score r = (case upvotes r of None \<Rightarrow> 0 | Some u \<Rightarrow> u)
               + (case comments r of None \<Rightarrow> 0 | Some cs \<Rightarrow> int (length cs))"
    by (simp add: score_def upvotes_or_0_def comments_length_or_0_def)
  ultimately show ?thesis
    by (simp add: sel mset_array_sort)
qed

theorem high_engagement_sorted_witness:
  "map ident (filter (\<lambda>r. score r = 5)
      (filteredReports [sample ''a'' (Some 5) 0, sample ''b'' (Some 1) 4, sample ''c'' None 2]
         [] [] ''high-engagement'')) = [''a'', ''b'']"
proof -
  have kept: "filter (\<lambda>r. score r = 5)
          (filter_step [sample ''a'' (Some 5) 0, sample ''b'' (Some 1) 4, sample ''c'' None 2] [] [])
        = [sample ''a'' (Some 5) 0, sample ''b'' (Some 1) 4]"
    by code_simp
  have "filter (\<lambda>r. score r = 5)
          (filteredReports [sample ''a'' (Some 5) 0, sample ''b'' (Some 1) 4, sample ''c'' None 2]
             [] [] ''high-engagement'')
        = filter (\<lambda>r. score r = 5)
          (filter_step [sample ''a'' (Some 5) 0, sample ''b'' (Some 1) 4, sample ''c'' None 2] [] [])"
    using high_engagement_sorted
      [of "[sample ''a'' (Some 5) 0, sample ''b'' (Some 1) 4, sample ''c'' None 2]" "[]" "[]" 5]
    by blast
  then show ?thesis
    by (simp only: kept) (simp add: sample_def)
qed

text \<open>
  With every upvotes count present the comparator of \<open>most-upvoted\<close> is consistent: the
  list is non-increasing in upvotes, a permutation of the filtered list, and stable.
\<close>

lemma most_upvoted_sorted_if_present:
  assumes "\<forall>r \<in> set (filter_step reports s loc). upvotes r \<noteq> None"
  shows "non_increasing (map upvotes_or_0 (filteredReports reports s loc ''most-upvoted''))
   \<and> filter (\<lambda>r. upvotes_or_0 r = k) (filteredReports reports s loc ''most-upvoted'')
       = filter (\<lambda>r. upvotes_or_0 r = k) (filter_step reports s loc)
   \<and> mset (filteredReports reports s loc ''most-upvoted'') = mset (filter_step reports s loc)"
proof -
  have sel: "filteredReports reports s loc ''most-upvoted''
             = array_sort compare_upvotes (filter_step reports s loc)"
    by (simp add: filteredReports_def)
  have key: "\<And>a b. a \<in> set (filter_step reports s loc) \<Longrightarrow> b \<in> set (filter_step reports s loc)
       \<Longrightarrow> sort_compare compare_upvotes a b = upvotes_or_0 b - upvotes_or_0 a"
    using assms by (intro compare_upvotes_key) auto
  have "non_increasing (map upvotes_or_0 (array_sort compare_upvotes (filter_step reports s loc)))"
    by (rule non_increasing_array_sort) (rule key)
  moreover have "filter (\<lambda>r. upvotes_or_0 r = k) (array_sort compare_upvotes (filter_step reports s loc))
       = filter (\<lambda>r. upvotes_or_0 r = k) (filter_step reports s loc)"
    by (rule filter_array_sort) (rule key)
  ultimately show ?thesis
    by (simp add: sel mset_array_sort)
qed

lemma most_upvoted_example:
  "map ident (filteredReports
      [sample ''a'' (Some 1) 0, sample ''b'' (Some 5) 0, sample ''c'' (Some 3) 0] [] []
      ''most-upvoted'') = [''b'', ''c'', ''a'']"
  by code_simp

text \<open>
  C2. The specification counts a missing upvotes value as 0, as the comparator of
  \<open>high-engagement\<close> does. The comparator of \<open>most-upvoted\<close> subtracts the fields as they
  are: a report without upvotes compares as a tie (\<open>NaN\<close>) with every other, so it stays
  in front of a report with 5 upvotes and the list, read with the missing value as 0,
  is 0, 5. On the same list \<open>high-engagement\<close> puts the report with 5 upvotes first.
\<close>

theorem most_upvoted_missing_not_defaulted:
  "map ident (filteredReports [sample ''a'' None 0, sample ''b'' (Some 5) 0] [] []
      ''most-upvoted'') = [''a'', ''b'']
   \<and> map upvotes_or_0 (filteredReports [sample ''a'' None 0, sample ''b'' (Some 5) 0] [] []
      ''most-upvoted'') = [0, 5]
   \<and> \<not> non_increasing (map upvotes_or_0
        (filteredReports [sample ''a'' None 0, sample ''b'' (Some 5) 0] [] [] ''most-upvoted''))
   \<and> map ident (filteredReports [sample ''a'' None 0, sample ''b'' (Some 5) 0] [] []
      ''high-engagement'') = [''b'', ''a'']"
proof -
  have "map ident (filteredReports [sample ''a'' None 0, sample ''b'' (Some 5) 0] [] []
      ''most-upvoted'') = [''a'', ''b'']"
    by code_simp
  moreover have "map upvotes_or_0 (filteredReports [sample ''a'' None 0, sample ''b'' (Some 5) 0]
      [] [] ''most-upvoted'') = [0, 5]"
    by code_simp
  moreover have "\<not> non_increasing (map upvotes_or_0
        (filteredReports [sample ''a'' None 0, sample ''b'' (Some 5) 0] [] [] ''most-upvoted''))"
    by code_simp
  moreover have "map ident (filteredReports [sample ''a'' None 0, sample ''b'' (Some 5) 0] [] []
      ''high-engagement'') = [''b'', ''a'']"
    by code_simp
  ultimately show ?thesis by blast
qed

text \<open>
  C5. With upvotes 5, 1, 3 and 0, 4, 2 comments, \<open>most-commented\<close> shows the report with 4
  comments first, then the one with 2, then the one with 0. In general the derived list is
  non-increasing in the number of comments, an absent comment list counting as 0; it is a
  permutation of the filtered list and ties keep their filtered order.
\<close>

theorem most_commented_sorted:
  "map ident (filteredReports
      [sample ''a'' (Some 5) 0, sample ''b'' (Some 1) 4, sample ''c'' (Some 3) 2]
      [] [] ''most-commented'') = [''b'', ''c'', ''a'']
   \<and> non_increasing (map comments_length_or_0 (filteredReports reports s loc ''most-commented''))
   \<and> filter (\<lambda>r. comments_length_or_0 r = k) (filteredReports reports s loc ''most-commented'')
       = filter (\<lambda>r. comments_length_or_0 r = k) (filter_step reports s loc)
   \<and> mset (filteredReports reports s loc ''most-commented'') = mset (filter_step reports s loc)
   \<and> (comments r = None \<longrightarrow> comments_length_or_0 r = 0)"
proof -
  have sel: "filteredReports reports s loc ''most-commented''
             = array_sort compare_comments (filter_step reports s loc)"
    by (simp add: filteredReports_def)
  have scen: "map ident (filteredReports
      [sample ''a'' (Some 5) 0, sample ''b'' (Some 1) 4, sample ''c'' (Some 3) 2]
      [] [] ''most-commented'') = [''b'', ''c'', ''a'']"
    by code_simp
  have "non_increasing (map comments_length_or_0
          (array_sort compare_comments (filter_step reports s loc)))"
    by (rule non_increasing_array_sort) (rule compare_comments_key)
  moreover have "filter (\<lambda>r. comments_length_or_0 r = k)
          (array_sort compare_comments (filter_step reports s loc))
       = filter (\<lambda>r. comments_length_or_0 r = k) (filter_step reports s loc)"
    by (rule filter_array_sort) (rule compare_comments_key)
  ultimately show ?thesis
    using scen by (simp add: sel mset_array_sort comments_length_or_0_def)
qed

theorem most_commented_sorted_witness:
  "comments ((sample ''a'' None 0)\<lparr>comments := None\<rparr>) = None
   \<and> comments_length_or_0 ((sample ''a'' None 0)\<lparr>comments := None\<rparr>) = 0"
proof -
  have h: "comments ((sample ''a'' None 0)\<lparr>comments := None\<rparr>) = None"
    by simp
  have "comments ((sample ''a'' None 0)\<lparr>comments := None\<rparr>) = None \<longrightarrow>
        comments_length_or_0 ((sample ''a'' None 0)\<lparr>comments := None\<rparr>) = 0"
    using most_commented_sorted [of "[]" "[]" "[]" 0 "(sample ''a'' None 0)\<lparr>comments := None\<rparr>"]
    by blast
  with h show ?thesis by blast
qed

section \<open>Cleared filters\<close>

lemma filter_step_cleared: "list_all searchable L \<Longrightarrow> filter_step L [] [] = L"
  by (simp add: filter_step_def matchesSearch_empty matchesLocation_def list_all_iff)

lemma filteredReports_unsorted:
  "sel \<notin> {''high-engagement'', ''most-upvoted'', ''most-commented''} \<Longrightarrow>
   filteredReports L s loc sel = filter_step L s loc"
  by (simp add: filteredReports_def)

lemma shown_after_clearing:
  "shown L (setSearch [] (setSearch s initial_page)) = filter_step L [] []"
  by (simp add: shown_def setSearch_def initial_page_def filteredReports_unsorted)

text \<open>
  The derived list is computed anew from the base list at every change of the inputs.
  With no sort selected it is a subsequence of the base list, and with all filters
  cleared it is the base list whenever every report is searchable.
\<close>

lemma filter_keeps_order:
  "sel \<notin> {''high-engagement'', ''most-upvoted'', ''most-commented''} \<Longrightarrow>
   subseq (filteredReports L s loc sel) L"
  by (simp add: filteredReports_unsorted filter_step_def)

lemma cleared_filters_give_searchable_base_list:
  "list_all searchable L \<Longrightarrow> shown L (setSearch [] (setSearch s initial_page)) = L"
  by (simp add: shown_after_clearing filter_step_cleared)

text \<open>
  C3. After searching for \<open>flood\<close> and clearing the search box again, with no location
  filter and no sort selected, the specification shows the base list. The page shows
  the base list without the report that has no description, no location name and no
  reporter email: the same missing test for an empty search string as in C1.
\<close>

theorem cleared_filters_drop_unsearchable:
  "map ident [sample ''a'' None 0, undescribed ''z'', sample ''b'' (Some 5) 0] = [''a'', ''z'', ''b'']
   \<and> map ident (shown [sample ''a'' None 0, undescribed ''z'', sample ''b'' (Some 5) 0]
        (setSearch [] (setSearch ''flood'' initial_page))) = [''a'', ''b'']
   \<and> map ident (filteredReports [sample ''a'' None 0, undescribed ''z'', sample ''b'' (Some 5) 0]
        [] [] ''none'') = [''a'', ''b'']"
proof -
  have "map ident [sample ''a'' None 0, undescribed ''z'', sample ''b'' (Some 5) 0]
        = [''a'', ''z'', ''b'']"
    by (simp add: sample_def undescribed_def)
  moreover have "map ident (shown [sample ''a'' None 0, undescribed ''z'', sample ''b'' (Some 5) 0]
        (setSearch [] (setSearch ''flood'' initial_page))) = [''a'', ''b'']"
    by code_simp
  moreover have "map ident (filteredReports
        [sample ''a'' None 0, undescribed ''z'', sample ''b'' (Some 5) 0] [] [] ''none'')
        = [''a'', ''b'']"
    by code_simp
  ultimately show ?thesis by blast
qed

section \<open>Login and start-up validation\<close>




lemma initAuth_holds_admin: "holds_admin s \<Longrightarrow> holds_admin (initAuth me s)"
  by (auto simp: holds_admin_def initAuth_def split: option.splits outcome.splits)

lemma login_holds_admin: "holds_admin s \<Longrightarrow> holds_admin (snd (login res s))"
  by (auto simp: holds_admin_def login_def split: option.splits outcome.splits prod.splits)

lemma logout_holds_admin: "holds_admin (logout s)"
  by (simp add: holds_admin_def logout_def)

lemma auth_step_holds_admin: "holds_admin s \<Longrightarrow> holds_admin (auth_step s ev)"
  by (cases ev) (simp_all add: initAuth_holds_admin login_holds_admin logout_holds_admin)

lemma auth_run_holds_admin: "holds_admin s \<Longrightarrow> holds_admin (auth_run events s)"
  unfolding auth_run_def
  by (induction events arbitrary: s) (simp_all add: auth_step_holds_admin)

lemma initial_holds_admin: "holds_admin (initial_auth stored)"
  by (simp add: holds_admin_def initial_auth_def)

lemma initAuth_authenticated_iff:
  "session_state_of (initAuth me (initial_auth stored)) = Authenticated
   \<longleftrightarrow> has_token stored \<and> is_admin_identity me"
  by (auto simp: session_state_of_def initAuth_def initial_auth_def has_token_def
        is_admin_identity_def split: option.splits outcome.splits)

lemma initAuth_discards:
  "has_token stored \<Longrightarrow> \<not> is_admin_identity me \<Longrightarrow>
   admin_token (initAuth me (initial_auth stored)) = None
   \<and> admin (initAuth me (initial_auth stored)) = None
   \<and> session_state_of (initAuth me (initial_auth stored)) = Unauthenticated"
  by (auto simp: session_state_of_def initAuth_def initial_auth_def has_token_def
        is_admin_identity_def split: option.splits outcome.splits)

text \<open>
  C7. Start-up validation ends authenticated exactly when a token was stored and the
  backend answered with an identity of role \<open>admin\<close>. When a token was stored and the
  request failed or the role was another, the token is removed and the session ends
  unauthenticated. After any sequence of validations, logins and logouts the identity
  held, if any, has role \<open>admin\<close>.
\<close>

theorem startup_validation_admin_only:
  "(session_state_of (initAuth me (initial_auth stored)) = Authenticated
      \<longleftrightarrow> has_token stored \<and> is_admin_identity me)
   \<and> (has_token stored \<and> \<not> is_admin_identity me \<longrightarrow>
        admin_token (initAuth me (initial_auth stored)) = None
        \<and> admin (initAuth me (initial_auth stored)) = None
        \<and> session_state_of (initAuth me (initial_auth stored)) = Unauthenticated)
   \<and> holds_admin (auth_run events (initial_auth stored))
   \<and> (session_state_of (auth_run events (initial_auth stored)) = Authenticated \<longrightarrow>
        (\<exists>a. admin (auth_run events (initial_auth stored)) = Some a \<and> role a = ''admin''))"
proof -
  have inv: "holds_admin (auth_run events (initial_auth stored))"
    by (rule auth_run_holds_admin) (rule initial_holds_admin)
  have "session_state_of (auth_run events (initial_auth stored)) = Authenticated \<longrightarrow>
        (\<exists>a. admin (auth_run events (initial_auth stored)) = Some a \<and> role a = ''admin'')"
    using inv
    by (auto simp: session_state_of_def holds_admin_def split: option.splits if_splits)
  with inv initAuth_authenticated_iff [of me stored] initAuth_discards [of stored me]
  show ?thesis by blast
qed

theorem startup_validation_admin_only_witness:
  "has_token (Some ''tok'') \<and> \<not> is_admin_identity (Resolved (sample_identity ''premium''))
   \<and> admin_token (initAuth (Resolved (sample_identity ''premium'')) (initial_auth (Some ''tok''))) = None
   \<and> session_state_of (initAuth (Resolved (sample_identity ''premium'')) (initial_auth (Some ''tok'')))
       = Unauthenticated
   \<and> session_state_of (auth_run [InitAuth (Resolved (sample_identity ''admin''))] (initial_auth (Some ''tok'')))
       = Authenticated
   \<and> (\<exists>a. admin (auth_run [InitAuth (Resolved (sample_identity ''admin''))] (initial_auth (Some ''tok'')))
         = Some a \<and> role a = ''admin'')"
proof -
  have h: "has_token (Some ''tok'') \<and> \<not> is_admin_identity (Resolved (sample_identity ''premium''))"
    by (simp add: has_token_def is_admin_identity_def sample_identity_def)
  have g: "session_state_of (auth_run [InitAuth (Resolved (sample_identity ''admin''))]
             (initial_auth (Some ''tok''))) = Authenticated"
    by (simp add: auth_run_def initAuth_def initial_auth_def sample_identity_def
          session_state_of_def)
  show ?thesis
    using h g
      startup_validation_admin_only
        [of "Resolved (sample_identity ''premium'')" "Some ''tok''"
            "[InitAuth (Resolved (sample_identity ''admin''))]"]
    by blast
qed

section \<open>Confirmed deletions and failed mutations\<close>









section \<open>Category lookup at render time\<close>

lemma map_of_reportTypes_None:
  "t \<notin> set fixed_categories \<Longrightarrow> map_of reportTypes t = None"
  by (simp add: fixed_categories_def reportTypes_def)

lemma map_of_modal_reportTypes_None:
  "t \<notin> set fixed_categories \<Longrightarrow> map_of modal_reportTypes t = None"
  by (simp add: fixed_categories_def modal_reportTypes_def)

lemma map_of_reportTypes_Some:
  "t \<in> set fixed_categories \<Longrightarrow> \<exists>cfg. map_of reportTypes t = Some cfg"
  by (auto simp: fixed_categories_def reportTypes_def)

lemma map_of_modal_reportTypes_Some:
  "t \<in> set fixed_categories \<Longrightarrow> \<exists>cfg. map_of modal_reportTypes t = Some cfg"
  by (auto simp: fixed_categories_def modal_reportTypes_def)

lemma row_badge_succeeds_iff: "lookup_succeeds (row_badge r) \<longleftrightarrow> type r \<in> set fixed_categories"
proof (cases "type r \<in> set fixed_categories")
  case True
  then obtain cfg where "map_of reportTypes (type r) = Some cfg"
    using map_of_reportTypes_Some by blast
  with True show ?thesis by (simp add: row_badge_def get_property_def)
next
  case False
  then show ?thesis
    by (simp add: row_badge_def get_property_def map_of_reportTypes_None)
qed

lemma modal_badge_succeeds_iff:
  "lookup_succeeds (modal_badge r) \<longleftrightarrow> type r \<in> set fixed_categories"
proof (cases "type r \<in> set fixed_categories")
  case True
  then obtain cfg where "map_of modal_reportTypes (type r) = Some cfg"
    using map_of_modal_reportTypes_Some by blast
  with True show ?thesis by (simp add: modal_badge_def get_property_def)
next
  case False
  then show ?thesis
    by (simp add: modal_badge_def get_property_def map_of_modal_reportTypes_None)
qed

lemma row_badge_other:
  "type r \<notin> set fixed_categories \<Longrightarrow>
   row_badge r = (if type r \<in> set object_prototype_names then Inr (None, None)
                  else Inl TypeError)"
  by (simp add: row_badge_def get_property_def map_of_reportTypes_None)

lemma render_rows_ok:
  "list_all (\<lambda>r. type r \<in> set fixed_categories) rs \<Longrightarrow>
   \<exists>bs. render_rows rs = Inr bs \<and> length bs = length rs
        \<and> list_all (\<lambda>b. lookup_succeeds (Inr b)) bs"
proof (induction rs)
  case Nil
  then show ?case by simp
next
  case (Cons r rs)
  then obtain bs where bs: "render_rows rs = Inr bs" "length bs = length rs"
      "list_all (\<lambda>b. lookup_succeeds (Inr b)) bs"
    by auto
  from Cons.prems have "lookup_succeeds (row_badge r)"
    by (simp add: row_badge_succeeds_iff)
  then obtain b where "row_badge r = Inr b" "lookup_succeeds (Inr b)"
    by (cases "row_badge r") auto
  with bs show ?case by simp
qed

text \<open>
  C10. The lookup gives a label and a color, in the table rows and in the detail modal,
  exactly when the report's category is one of the five fixed values. For any other
  category nothing handles the miss: reading the color throws at render time (for the
  few names every object inherits, such as \<open>toString\<close>, the badge is rendered without
  class or text instead). When every report's category is in the fixed set, the whole
  table renders and the throw is never reached.
\<close>

theorem category_lookup:
  "(lookup_succeeds (row_badge r) \<longleftrightarrow> type r \<in> set fixed_categories)
   \<and> (lookup_succeeds (modal_badge r) \<longleftrightarrow> type r \<in> set fixed_categories)
   \<and> (type r \<notin> set fixed_categories \<longrightarrow>
        row_badge r = (if type r \<in> set object_prototype_names then Inr (None, None)
                       else Inl TypeError))
   \<and> (list_all (\<lambda>r. type r \<in> set fixed_categories) rs \<longrightarrow>
        (\<exists>bs. render_rows rs = Inr bs \<and> length bs = length rs
              \<and> list_all (\<lambda>b. lookup_succeeds (Inr b)) bs))"
  using row_badge_succeeds_iff [of r] modal_badge_succeeds_iff [of r] row_badge_other [of r]
    render_rows_ok [of rs]
  by blast

theorem category_lookup_witness:
  "type ((sample ''a'' None 0)\<lparr>type := ''pothole''\<rparr>) \<notin> set fixed_categories
   \<and> row_badge ((sample ''a'' None 0)\<lparr>type := ''pothole''\<rparr>) = Inl TypeError
   \<and> list_all (\<lambda>r. type r \<in> set fixed_categories) [sample ''a'' None 0]
   \<and> render_rows [sample ''a'' None 0]
       = Inr [(Some ''bg-blue-100 text-blue-700'', Some ''Flooded Road'')]"
proof -
  have h1: "type ((sample ''a'' None 0)\<lparr>type := ''pothole''\<rparr>) \<notin> set fixed_categories"
    by (simp add: fixed_categories_def)
  have p: "type ((sample ''a'' None 0)\<lparr>type := ''pothole''\<rparr>) \<notin> set object_prototype_names"
    by (simp add: object_prototype_names_def)
  have h2: "list_all (\<lambda>r. type r \<in> set fixed_categories) [sample ''a'' None 0]"
    by (simp add: fixed_categories_def sample_def)
  have "row_badge ((sample ''a'' None 0)\<lparr>type := ''pothole''\<rparr>) = Inl TypeError"
    using h1 p category_lookup [of "(sample ''a'' None 0)\<lparr>type := ''pothole''\<rparr>" "[]"]
    by presburger
  moreover have "render_rows [sample ''a'' None 0]
       = Inr [(Some ''bg-blue-100 text-blue-700'', Some ''Flooded Road'')]"
    by (simp add: row_badge_def get_property_def reportTypes_def sample_def)
  ultimately show ?thesis using h1 h2 by blast
qed

end
